theory Spec2Isabelle
  imports Complex_Main
begin

section \<open>Quad types (GrQuad.h)\<close>

text \<open>
  \<^verbatim>\<open>enum class GrQuadType { kRect, kRectilinear, kStandard, kPerspective }\<close>.
  The comparisons of the source (\<^verbatim>\<open>type > fType\<close>, \<^verbatim>\<open>quadType() <= type\<close>)
  compare the enumerators' integer values, which \<open>quad_rank\<close> gives.
\<close>

datatype GrQuadType = kRect | kRectilinear | kStandard | kPerspective

fun quad_rank :: "GrQuadType \<Rightarrow> nat" where
  "quad_rank kRect = 0"
| "quad_rank kRectilinear = 1"
| "quad_rank kStandard = 2"
| "quad_rank kPerspective = 3"

instantiation GrQuadType :: linorder
begin

definition less_eq_GrQuadType :: "GrQuadType \<Rightarrow> GrQuadType \<Rightarrow> bool" where
  "less_eq_GrQuadType a b = (quad_rank a \<le> quad_rank b)"

definition less_GrQuadType :: "GrQuadType \<Rightarrow> GrQuadType \<Rightarrow> bool" where
  "less_GrQuadType a b = (quad_rank a < quad_rank b)"

instance
proof
  fix x y z :: GrQuadType
  show "(x < y) = (x \<le> y \<and> \<not> y \<le> x)"
    by (auto simp: less_eq_GrQuadType_def less_GrQuadType_def)
  show "x \<le> x"
    by (simp add: less_eq_GrQuadType_def)
  show "x \<le> y \<Longrightarrow> y \<le> z \<Longrightarrow> x \<le> z"
    by (simp add: less_eq_GrQuadType_def)
  show "x \<le> y \<Longrightarrow> y \<le> x \<Longrightarrow> x = y"
    by (cases x; cases y; simp add: less_eq_GrQuadType_def)
  show "x \<le> y \<or> y \<le> x"
    by (auto simp: less_eq_GrQuadType_def)
qed

end

section \<open>Four floats\<close>

text \<open>
  \<^verbatim>\<open>float fX[4]\<close>, and the value an \<^verbatim>\<open>Sk4f\<close> holds after \<^verbatim>\<open>Sk4f::Load\<close>.
  The scalar type is the parameter \<open>'f\<close>: the list code only copies floats and writes
  the literal \<^verbatim>\<open>1.f\<close>, which is \<open>1\<close> of the class \<open>one\<close>.
\<close>

datatype 'f float4 = Float4 (f0: 'f) (f1: 'f) (f2: 'f) (f3: 'f)

text \<open>\<^verbatim>\<open>a[i]\<close> on a \<^verbatim>\<open>float[4]\<close>: outside 0..3 the read is out of bounds.\<close>

fun at4 :: "'f float4 \<Rightarrow> int \<Rightarrow> 'f option" where
  "at4 (Float4 a b c d) i =
     (if i = 0 then Some a else if i = 1 then Some b
      else if i = 2 then Some c else if i = 3 then Some d else None)"

fun list_of4 :: "'f float4 \<Rightarrow> 'f list" where
  "list_of4 (Float4 a b c d) = [a, b, c, d]"

text \<open>
  Four consecutive floats read from a flat array at an offset (\<^verbatim>\<open>fWs.begin() + 4 * i\<close>);
  \<open>None\<close> when the array is too short for the read.
\<close>

definition load4 :: "'f list \<Rightarrow> nat \<Rightarrow> 'f float4 option" where
  "load4 ws off =
     (case drop off ws of
        a # b # c # d # _ \<Rightarrow> Some (Float4 a b c d)
      | _ \<Rightarrow> None)"

text \<open>
  Modelled from the spec: the 4-wide float vector of SkNx.h is not among the sources; the
  spec gives it elementwise compare and an any-lane reduction. \<^verbatim>\<open>Sk4f(1.f)\<close> fills the four
  lanes with one value. The lane comparison \<^verbatim>\<open>!=\<close> is only ever made against \<^verbatim>\<open>1.f\<close>, where
  the IEEE comparison and inequality of values agree (1.0 has one encoding, and a NaN
  compares unequal to everything).
\<close>

definition Sk4f_splat :: "'f \<Rightarrow> 'f float4" where
  "Sk4f_splat v = Float4 v v v v"

fun Sk4f_ne :: "'f float4 \<Rightarrow> 'f float4 \<Rightarrow> bool float4" where
  "Sk4f_ne (Float4 a b c d) (Float4 a' b' c' d') = Float4 (a \<noteq> a') (b \<noteq> b') (c \<noteq> c') (d \<noteq> d')"

fun anyTrue :: "bool float4 \<Rightarrow> bool" where
  "anyTrue (Float4 a b c d) = (a \<or> b \<or> c \<or> d)"

text \<open>
  Modelled from the spec: the remaining operations of the 4-wide vector (elementwise
  multiply, reciprocal, min- and max-reduce). Their scalar arithmetic is IEEE arithmetic on
  floats, which is taken as a parameter: the lane product, the lane reciprocal
  \<^verbatim>\<open>1.f / w\<close>, and the two reductions of four lanes to one float.
\<close>

record 'f sk4f_ops =
  lane_mul :: "'f \<Rightarrow> 'f \<Rightarrow> 'f"
  lane_invert :: "'f \<Rightarrow> 'f"
  reduce_min :: "'f float4 \<Rightarrow> 'f"
  reduce_max :: "'f float4 \<Rightarrow> 'f"

fun Sk4f_mul :: "'f sk4f_ops \<Rightarrow> 'f float4 \<Rightarrow> 'f float4 \<Rightarrow> 'f float4" where
  "Sk4f_mul ops (Float4 a b c d) (Float4 a' b' c' d') =
     Float4 (lane_mul ops a a') (lane_mul ops b b') (lane_mul ops c c') (lane_mul ops d d')"

fun Sk4f_invert :: "'f sk4f_ops \<Rightarrow> 'f float4 \<Rightarrow> 'f float4" where
  "Sk4f_invert ops (Float4 a b c d) =
     Float4 (lane_invert ops a) (lane_invert ops b) (lane_invert ops c) (lane_invert ops d)"

fun map4 :: "('f \<Rightarrow> 'g) \<Rightarrow> 'f float4 \<Rightarrow> 'g float4" where
  "map4 g (Float4 a b c d) = Float4 (g a) (g b) (g c) (g d)"

section \<open>SkRect, GrQuad and GrPerspQuad\<close>

record 'f SkRect =
  fLeft :: 'f
  fTop :: 'f
  fRight :: 'f
  fBottom :: 'f

text \<open>\<^verbatim>\<open>class GrQuad { float fX[4]; float fY[4]; }\<close>\<close>

datatype 'f GrQuad = GrQuad (quad_fX: "'f float4") (quad_fY: "'f float4")

text \<open>\<^verbatim>\<open>explicit GrQuad(const SkRect& rect)\<close>\<close>

definition GrQuad_of_rect :: "'f SkRect \<Rightarrow> 'f GrQuad" where
  "GrQuad_of_rect rect =
     GrQuad (Float4 (fLeft rect) (fLeft rect) (fRight rect) (fRight rect))
            (Float4 (fTop rect) (fBottom rect) (fTop rect) (fBottom rect))"

text \<open>\<^verbatim>\<open>SkRect GrQuad::bounds() const\<close>: \<^verbatim>\<open>{x.min(), y.min(), x.max(), y.max()}\<close>.\<close>

definition GrQuad_bounds :: "'f sk4f_ops \<Rightarrow> 'f GrQuad \<Rightarrow> 'f SkRect" where
  "GrQuad_bounds ops q =
     (let x = quad_fX q; y = quad_fY q
      in \<lparr>fLeft = reduce_min ops x, fTop = reduce_min ops y,
          fRight = reduce_max ops x, fBottom = reduce_max ops y\<rparr>)"

text \<open>
  \<^verbatim>\<open>class GrPerspQuad { float fX[4]; float fY[4]; float fW[4]; }\<close>. The constructor is
  the private \<^verbatim>\<open>GrPerspQuad(const float xs[4], const float ys[4], const float ws[4])\<close>,
  which copies four values from each array into the quad's components.
\<close>

datatype 'f GrPerspQuad =
  GrPerspQuad (persp_fX: "'f float4") (persp_fY: "'f float4") (persp_fW: "'f float4")

definition w4f :: "'f GrPerspQuad \<Rightarrow> 'f float4" where
  "w4f q = persp_fW q"

definition iw4f :: "'f sk4f_ops \<Rightarrow> 'f GrPerspQuad \<Rightarrow> 'f float4" where
  "iw4f ops q = Sk4f_invert ops (w4f q)"

text \<open>\<^verbatim>\<open>float w(int i) const { return fW[i]; }\<close>\<close>

definition quad_w :: "'f GrPerspQuad \<Rightarrow> int \<Rightarrow> 'f option" where
  "quad_w q i = at4 (persp_fW q) i"

text \<open>\<^verbatim>\<open>bool hasPerspective() const { return (w4f() != Sk4f(1.f)).anyTrue(); }\<close>\<close>

definition hasPerspective :: "('f::one) GrPerspQuad \<Rightarrow> bool" where
  "hasPerspective q = anyTrue (Sk4f_ne (w4f q) (Sk4f_splat 1))"

text \<open>
  \<^verbatim>\<open>SkRect GrPerspQuad::bounds(GrQuadType type) const\<close>, as a release build runs it
  (the \<^verbatim>\<open>SkASSERT\<close> is compiled out).
\<close>

definition GrPerspQuad_bounds :: "'f sk4f_ops \<Rightarrow> 'f GrPerspQuad \<Rightarrow> GrQuadType \<Rightarrow> 'f SkRect" where
  "GrPerspQuad_bounds ops q type =
     (let x = persp_fX q; y = persp_fY q;
          (x, y) = (if type = kPerspective
                    then (let iw = iw4f ops q in (Sk4f_mul ops x iw, Sk4f_mul ops y iw))
                    else (x, y))
      in \<lparr>fLeft = reduce_min ops x, fTop = reduce_min ops y,
          fRight = reduce_max ops x, fBottom = reduce_max ops y\<rparr>)"

section \<open>The quad list (GrQuadListBase)\<close>

text \<open>
  \<^verbatim>\<open>template<typename T> struct QuadData { float fX[4]; float fY[4]; T fMetadata; }\<close>;
  for \<^verbatim>\<open>QuadData<void>\<close> the metadata type is \<open>unit\<close>.
\<close>

record ('f, 'm) QuadData =
  fX :: "'f float4"
  fY :: "'f float4"
  fMetadata :: 'm

record ('f, 'm) GrQuadListBase =
  fXYs :: "('f, 'm) QuadData list"
  fWs :: "'f list"
  fType :: GrQuadType

text \<open>
  Modelled from the spec: SkTArray.h is not among the sources. An array is the list of its
  elements; \<^verbatim>\<open>push_back_n(n, t)\<close> appends n copies of one value, \<^verbatim>\<open>push_back_n(n, ts)\<close>
  appends the first n elements of an array, and \<^verbatim>\<open>reserve\<close> pre-sizes the storage and
  leaves the elements as they are. Counts are natural numbers: the \<^verbatim>\<open>int\<close> arithmetic
  \<^verbatim>\<open>4 * count\<close> of the source stays far below its range for any list that fits in memory.
\<close>

definition push_back_n_fill :: "nat \<Rightarrow> 'a \<Rightarrow> 'a list \<Rightarrow> 'a list" where
  "push_back_n_fill n t xs = xs @ replicate n t"

definition push_back_n_copy :: "nat \<Rightarrow> 'a list \<Rightarrow> 'a list \<Rightarrow> 'a list" where
  "push_back_n_copy n ts xs = xs @ take n ts"

definition SkTArray_reserve :: "int \<Rightarrow> 'a list \<Rightarrow> 'a list" where
  "SkTArray_reserve n xs = xs"

text \<open>\<^verbatim>\<open>GrQuadListBase() : fType(GrQuadType::kRect) {}\<close>\<close>

definition empty_list :: "('f, 'm) GrQuadListBase" where
  "empty_list = \<lparr>fXYs = [], fWs = [], fType = kRect\<rparr>"

definition count :: "('f, 'm) GrQuadListBase \<Rightarrow> nat" where
  "count l = length (fXYs l)"

definition quadType :: "('f, 'm) GrQuadListBase \<Rightarrow> GrQuadType" where
  "quadType l = fType l"

definition reserve :: "int \<Rightarrow> GrQuadType \<Rightarrow> ('f, 'm) GrQuadListBase \<Rightarrow> ('f, 'm) GrQuadListBase" where
  "reserve n forType l =
     (let l1 = l\<lparr>fXYs := SkTArray_reserve n (fXYs l)\<rparr>
      in if forType = kPerspective \<or> fType l1 = kPerspective
         then l1\<lparr>fWs := SkTArray_reserve (4 * n) (fWs l1)\<rparr>
         else l1)"

definition kNoPerspectiveWs :: "('f::one) float4" where
  "kNoPerspectiveWs = Float4 1 1 1 1"

text \<open>
  \<^verbatim>\<open>GrPerspQuad operator[] (int i) const\<close>. The result is \<open>None\<close> where the two
  assertions on the index fail, or where the read of four weights leaves the weight array:
  a release build reads out of bounds there.
\<close>

definition index_op :: "('f::one, 'm) GrQuadListBase \<Rightarrow> int \<Rightarrow> 'f GrPerspQuad option" where
  "index_op l i =
     (if \<not> (i < int (count l)) \<or> \<not> (i \<ge> 0) then None
      else
        (let item = fXYs l ! nat i
         in if fType l = kPerspective
            then (case load4 (fWs l) (4 * nat i) of
                    None \<Rightarrow> None
                  | Some ws \<Rightarrow> Some (GrPerspQuad (fX item) (fY item) ws))
            else Some (GrPerspQuad (fX item) (fY item) kNoPerspectiveWs)))"

text \<open>\<^verbatim>\<open>void upgradeType(GrQuadType type)\<close>\<close>

definition upgradeType :: "GrQuadType \<Rightarrow> ('f::one, 'm) GrQuadListBase \<Rightarrow> ('f, 'm) GrQuadListBase" where
  "upgradeType type l =
     (if type > fType l
      then (let l1 = l\<lparr>fType := type\<rparr>
            in if type = kPerspective
               then l1\<lparr>fWs := push_back_n_fill (4 * count l1) 1 (fWs l1)\<rparr>
               else l1)
      else l)"

text \<open>\<^verbatim>\<open>void concatImpl(const GrQuadListBase<T>& that)\<close>; the first argument is \<open>that\<close>.\<close>

definition concatImpl :: "('f::one, 'm) GrQuadListBase \<Rightarrow> ('f, 'm) GrQuadListBase \<Rightarrow> ('f, 'm) GrQuadListBase" where
  "concatImpl that l =
     (let l1 = upgradeType (fType that) l;
          l2 = l1\<lparr>fXYs := push_back_n_copy (length (fXYs that)) (fXYs that) (fXYs l1)\<rparr>
      in if fType l2 = kPerspective
         then (if fType that = kPerspective
               then l2\<lparr>fWs := push_back_n_copy (length (fWs that)) (fWs that) (fWs l2)\<rparr>
               else l2\<lparr>fWs := push_back_n_fill (4 * count that) 1 (fWs l2)\<rparr>)
         else l2)"

text \<open>
  \<^verbatim>\<open>QuadData<T>& pushBackImpl(const GrQuad& quad, GrQuadType type)\<close>, as a release
  build runs it. The source returns the new item so that \<^verbatim>\<open>push_back\<close> can store the
  metadata in it; here the metadata is an argument and is stored with the item.
\<close>

definition pushBackImpl_quad ::
  "'f GrQuad \<Rightarrow> GrQuadType \<Rightarrow> 'm \<Rightarrow> ('f::one, 'm) GrQuadListBase \<Rightarrow> ('f, 'm) GrQuadListBase" where
  "pushBackImpl_quad quad type md l =
     (let l1 = upgradeType type l;
          item = \<lparr>fX = quad_fX quad, fY = quad_fY quad, fMetadata = md\<rparr>;
          l2 = l1\<lparr>fXYs := fXYs l1 @ [item]\<rparr>
      in if fType l2 = kPerspective
         then l2\<lparr>fWs := push_back_n_fill 4 1 (fWs l2)\<rparr>
         else l2)"

text \<open>\<^verbatim>\<open>QuadData<T>& pushBackImpl(const GrPerspQuad& quad, GrQuadType type)\<close>\<close>

definition pushBackImpl_persp ::
  "'f GrPerspQuad \<Rightarrow> GrQuadType \<Rightarrow> 'm \<Rightarrow> ('f::one, 'm) GrQuadListBase \<Rightarrow> ('f, 'm) GrQuadListBase" where
  "pushBackImpl_persp quad type md l =
     (let l1 = upgradeType type l;
          item = \<lparr>fX = persp_fX quad, fY = persp_fY quad, fMetadata = md\<rparr>;
          l2 = l1\<lparr>fXYs := fXYs l1 @ [item]\<rparr>
      in if fType l2 = kPerspective
         then l2\<lparr>fWs := push_back_n_copy 4 (list_of4 (persp_fW quad)) (fWs l2)\<rparr>
         else l2)"

text \<open>
  The public \<^verbatim>\<open>push_back\<close> overloads of \<^verbatim>\<open>GrQuadList\<close> and \<^verbatim>\<open>GrTQuadList\<close>: one call
  is the quad (of either class), its declared type and the metadata.
\<close>

datatype ('f, 'm) push_arg =
  PushQuad "'f GrQuad" GrQuadType 'm
| PushPersp "'f GrPerspQuad" GrQuadType 'm

fun push_back :: "('f::one, 'm) push_arg \<Rightarrow> ('f, 'm) GrQuadListBase \<Rightarrow> ('f, 'm) GrQuadListBase" where
  "push_back (PushQuad quad type md) l = pushBackImpl_quad quad type md l"
| "push_back (PushPersp quad type md) l = pushBackImpl_persp quad type md l"

fun declared_type :: "('f, 'm) push_arg \<Rightarrow> GrQuadType" where
  "declared_type (PushQuad quad type md) = type"
| "declared_type (PushPersp quad type md) = type"

text \<open>A sequence of \<^verbatim>\<open>push_back\<close> calls, first call first.\<close>

fun push_all :: "('f::one, 'm) push_arg list \<Rightarrow> ('f, 'm) GrQuadListBase \<Rightarrow> ('f, 'm) GrQuadListBase" where
  "push_all [] l = l"
| "push_all (a # as) l = push_all as (push_back a l)"

text \<open>\<^verbatim>\<open>void concat(const GrQuadList& that) { this->concatImpl(that); }\<close>\<close>

definition concat_list :: "('f::one, 'm) GrQuadListBase \<Rightarrow> ('f, 'm) GrQuadListBase \<Rightarrow> ('f, 'm) GrQuadListBase" where
  "concat_list that l = concatImpl that l"

text \<open>
  \<^verbatim>\<open>QuadData<T>& item(int i) { return fXYs[i]; }\<close> and the accessors
  \<^verbatim>\<open>metadata(int i)\<close> of \<^verbatim>\<open>GrTQuadList\<close>: the const one reads the metadata, the other
  returns a reference through which the caller stores a new value. An index outside the
  array is \<open>None\<close>.
\<close>

definition item :: "('f, 'm) GrQuadListBase \<Rightarrow> int \<Rightarrow> ('f, 'm) QuadData option" where
  "item l i = (if 0 \<le> i \<and> i < int (length (fXYs l)) then Some (fXYs l ! nat i) else None)"

definition metadata :: "('f, 'm) GrQuadListBase \<Rightarrow> int \<Rightarrow> 'm option" where
  "metadata l i = map_option fMetadata (item l i)"

definition set_metadata :: "int \<Rightarrow> 'm \<Rightarrow> ('f, 'm) GrQuadListBase \<Rightarrow> ('f, 'm) GrQuadListBase option" where
  "set_metadata i md l =
     (case item l i of
        None \<Rightarrow> None
      | Some it \<Rightarrow> Some (l\<lparr>fXYs := (fXYs l)[nat i := it\<lparr>fMetadata := md\<rparr>]\<rparr>))"

text \<open>
  Every operation the list offers, and the list it leaves behind (\<open>None\<close> where an index
  is out of range). Reads leave the list as it is.
\<close>

datatype ('f, 'm) list_op =
  OpReserve int GrQuadType
| OpPushBack "('f, 'm) push_arg"
| OpConcat "('f, 'm) GrQuadListBase"
| OpIndex int
| OpCount
| OpQuadType
| OpMetadataRead int
| OpMetadataWrite int 'm

fun run_op :: "('f::one, 'm) list_op \<Rightarrow> ('f, 'm) GrQuadListBase \<Rightarrow> ('f, 'm) GrQuadListBase option" where
  "run_op (OpReserve n forType) l = Some (reserve n forType l)"
| "run_op (OpPushBack a) l = Some (push_back a l)"
| "run_op (OpConcat that) l = Some (concat_list that l)"
| "run_op (OpIndex i) l = (case index_op l i of None \<Rightarrow> None | Some q \<Rightarrow> Some l)"
| "run_op OpCount l = Some l"
| "run_op OpQuadType l = Some l"
| "run_op (OpMetadataRead i) l = (case metadata l i of None \<Rightarrow> None | Some md \<Rightarrow> Some l)"
| "run_op (OpMetadataWrite i md) l = set_metadata i md l"

text \<open>
  The storage invariant: the weight array holds four floats for each entry once the list
  is perspective, and is empty before.
\<close>

definition list_inv :: "('f, 'm) GrQuadListBase \<Rightarrow> bool" where
  "list_inv l =
     (if fType l = kPerspective then length (fWs l) = 4 * length (fXYs l) else fWs l = [])"

text \<open>The lists that \<^verbatim>\<open>push_back\<close> and \<^verbatim>\<open>concat\<close> build from the empty list.\<close>

inductive reachable :: "('f::one, 'm) GrQuadListBase \<Rightarrow> bool" where
  r_empty: "reachable empty_list"
| r_push: "reachable l \<Longrightarrow> reachable (push_back a l)"
| r_concat: "reachable l \<Longrightarrow> reachable that \<Longrightarrow> reachable (concat_list that l)"

text \<open>
  A debug build: \<^verbatim>\<open>SkASSERT(quad.quadType() <= type)\<close> runs before the push.
  \<^verbatim>\<open>quadType()\<close> of a quad is declared under \<^verbatim>\<open>SK_DEBUG\<close> and defined outside the
  header, so the classification of the quad is the parameter \<open>qt\<close>.
\<close>

datatype failure = AssertionFailed

definition pushBackImpl_quad_debug ::
  "('f GrQuad \<Rightarrow> GrQuadType) \<Rightarrow> 'f GrQuad \<Rightarrow> GrQuadType \<Rightarrow> 'm \<Rightarrow> ('f::one, 'm) GrQuadListBase
    \<Rightarrow> failure + ('f, 'm) GrQuadListBase" where
  "pushBackImpl_quad_debug qt quad type md l =
     (if \<not> (qt quad \<le> type) then Inl AssertionFailed
      else Inr (pushBackImpl_quad quad type md l))"

definition pushBackImpl_persp_debug ::
  "('f GrPerspQuad \<Rightarrow> GrQuadType) \<Rightarrow> 'f GrPerspQuad \<Rightarrow> GrQuadType \<Rightarrow> 'm \<Rightarrow> ('f::one, 'm) GrQuadListBase
    \<Rightarrow> failure + ('f, 'm) GrQuadListBase" where
  "pushBackImpl_persp_debug qt quad type md l =
     (if \<not> (qt quad \<le> type) then Inl AssertionFailed
      else Inr (pushBackImpl_persp quad type md l))"

section \<open>Classification\<close>

text \<open>
  Modelled from the spec: the transform type (SkMatrix.h) is not among the sources. It is
  a 3x3 matrix, rows (scaleX skewX transX), (skewY scaleY transY), (persp0 persp1 persp2),
  with the point mapping and the predicates the spec asks of it. Coordinates are real
  numbers here; the rounding of floats is not modelled.
\<close>

record SkMatrix =
  scaleX :: real
  skewX :: real
  transX :: real
  skewY :: real
  scaleY :: real
  transY :: real
  persp0 :: real
  persp1 :: real
  persp2 :: real

definition mapX :: "SkMatrix \<Rightarrow> real \<Rightarrow> real \<Rightarrow> real" where
  "mapX m x y = scaleX m * x + skewX m * y + transX m"

definition mapY :: "SkMatrix \<Rightarrow> real \<Rightarrow> real \<Rightarrow> real" where
  "mapY m x y = skewY m * x + scaleY m * y + transY m"

text \<open>Modelled from the spec: the transform has a non-trivial third row.\<close>

definition matrix_hasPerspective :: "SkMatrix \<Rightarrow> bool" where
  "matrix_hasPerspective m = (persp0 m \<noteq> 0 \<or> persp1 m \<noteq> 0 \<or> persp2 m \<noteq> 1)"

text \<open>
  Modelled from the spec: the transform has skew. A transform without skew is
  ``diagonal-or-rotation only'', and for the header it ``may rotate'': it keeps the two
  axes perpendicular. The axes are mapped to the columns (scaleX, skewY) and (skewX, scaleY)
  of the matrix, and the transform has skew when these are not perpendicular, that is,
  when their dot product is not zero. Every diagonal matrix and every rotation is without
  skew (\<open>diagonal_no_skew\<close>, \<open>rotation_no_skew\<close> below); a shear has skew.
\<close>

definition matrix_hasSkew :: "SkMatrix \<Rightarrow> bool" where
  "matrix_hasSkew m = (scaleX m * skewX m + skewY m * scaleY m \<noteq> 0)"

text \<open>
  Modelled from the spec: \<^verbatim>\<open>GrQuad(const SkRect&, const SkMatrix&)\<close> is declared in
  the header and defined elsewhere; it sets the quad to the four corners of the rect (in
  the order of \<open>GrQuad_of_rect\<close>) as transformed by the matrix.
\<close>

definition GrQuad_of_rect_matrix :: "real SkRect \<Rightarrow> SkMatrix \<Rightarrow> real GrQuad" where
  "GrQuad_of_rect_matrix rect m =
     (case GrQuad_of_rect rect of
        GrQuad (Float4 x0 x1 x2 x3) (Float4 y0 y1 y2 y3) \<Rightarrow>
          GrQuad (Float4 (mapX m x0 y0) (mapX m x1 y1) (mapX m x2 y2) (mapX m x3 y3))
                 (Float4 (mapY m x0 y0) (mapY m x1 y1) (mapY m x2 y2) (mapY m x3 y3)))"

text \<open>
  Modelled from the spec: the transform maps one rectangle to an axis-aligned rectangle,
  mirroring allowed. The header's comment on the quad types gives both pairings of the
  mapped corners: \<^verbatim>\<open>x(0) == x(1) && x(2) == x(3) and y(0) == y(2) && y(1) == y(3)\<close>, or
  under mirrors \<^verbatim>\<open>x(0) == x(2) && x(1) == x(3) and y(0) == y(1) && y(2) == y(3)\<close>. A
  transform with a perspective row is taken not to map rectangles to rectangles.
\<close>

definition mapsRectToRect :: "SkMatrix \<Rightarrow> real SkRect \<Rightarrow> bool" where
  "mapsRectToRect m rect =
     (\<not> matrix_hasPerspective m \<and>
      (case GrQuad_of_rect_matrix rect m of
         GrQuad (Float4 x0 x1 x2 x3) (Float4 y0 y1 y2 y3) \<Rightarrow>
           (x0 = x1 \<and> x2 = x3 \<and> y0 = y2 \<and> y1 = y3) \<or>
           (x0 = x2 \<and> x1 = x3 \<and> y0 = y1 \<and> y2 = y3)))"

text \<open>
  Modelled from the spec: \<^verbatim>\<open>rectStaysRect()\<close> of the matrix, which the header's
  comment names as the first way a rectangle stays a rectangle. It is a predicate of the
  matrix alone: the transform maps every rectangle to an axis-aligned rectangle. On the
  entries this is: no perspective row, and both skew entries zero (scale and mirror) or
  both scale entries zero (the mirrored pairing). \<open>rectStaysRect_iff\<close> below proves that
  this is \<open>mapsRectToRect\<close> for every rectangle.
\<close>

definition rectStaysRect :: "SkMatrix \<Rightarrow> bool" where
  "rectStaysRect m =
     (\<not> matrix_hasPerspective m \<and>
      ((skewX m = 0 \<and> skewY m = 0) \<or> (scaleX m = 0 \<and> scaleY m = 0)))"

text \<open>
  Modelled from the spec: \<^verbatim>\<open>GrQuadType GrQuadTypeForTransformedRect(const SkMatrix& matrix)\<close>
  is declared in the header and defined elsewhere. It takes the matrix alone, so the first
  of the spec's four cases is the matrix's own \<^verbatim>\<open>rectStaysRect()\<close>; the cases are tried in
  the spec's order.
\<close>

definition GrQuadTypeForTransformedRect :: "SkMatrix \<Rightarrow> GrQuadType" where
  "GrQuadTypeForTransformedRect matrix =
     (if rectStaysRect matrix then kRect
      else if \<not> matrix_hasPerspective matrix \<and> \<not> matrix_hasSkew matrix then kRectilinear
      else if \<not> matrix_hasPerspective matrix then kStandard
      else kPerspective)"

text \<open>
  The spec's \<open>classify(rect, transform)\<close>: the declared function, which does not look at the
  rectangle.
\<close>

definition classify :: "real SkRect \<Rightarrow> SkMatrix \<Rightarrow> GrQuadType" where
  "classify rect m = GrQuadTypeForTransformedRect m"

definition identity_matrix :: SkMatrix where
  "identity_matrix =
     \<lparr>scaleX = 1, skewX = 0, transX = 0, skewY = 0, scaleY = 1, transY = 0,
      persp0 = 0, persp1 = 0, persp2 = 1\<rparr>"

text \<open>The rotation about the origin with cosine \<open>c\<close> and sine \<open>s\<close>.\<close>

definition rotate_matrix :: "real \<Rightarrow> real \<Rightarrow> SkMatrix" where
  "rotate_matrix c s =
     \<lparr>scaleX = c, skewX = - s, transX = 0, skewY = s, scaleY = c, transY = 0,
      persp0 = 0, persp1 = 0, persp2 = 1\<rparr>"

text \<open>The rotation by 90 degrees: cosine 0, sine 1.\<close>

definition rotate90_matrix :: SkMatrix where
  "rotate90_matrix = rotate_matrix 0 1"

section \<open>The scene-graph node (SkSGGeometryTransform.h)\<close>

text \<open>
  \<^verbatim>\<open>sk_sp<T>\<close> is \<open>'a option\<close>, the null pointer \<open>None\<close>. The node holds
  \<^verbatim>\<open>const sk_sp<GeometryNode> fChild\<close> and \<^verbatim>\<open>const sk_sp<Transform> fTransform\<close>; the
  path it caches on revalidation (\<^verbatim>\<open>fTransformedPath\<close>) is left out.
\<close>

record ('g, 't) GeometryTransform =
  fChild :: "'g option"
  fTransform :: "'t option"

text \<open>
  Modelled from the spec: the private constructor
  \<^verbatim>\<open>GeometryTransform(sk_sp<GeometryNode>, sk_sp<Transform>)\<close> is declared in the header and
  defined elsewhere. The node binds a transform to a geometry node: the constructor stores
  its two arguments in the two const members.
\<close>

definition new_GeometryTransform :: "'g option \<Rightarrow> 't option \<Rightarrow> ('g, 't) GeometryTransform" where
  "new_GeometryTransform child transform = \<lparr>fChild = child, fTransform = transform\<rparr>"

text \<open>\<^verbatim>\<open>static sk_sp<GeometryTransform> Make(sk_sp<GeometryNode> child, sk_sp<Transform> transform)\<close>\<close>

definition Make :: "'g option \<Rightarrow> 't option \<Rightarrow> ('g, 't) GeometryTransform option" where
  "Make child transform =
     (if child \<noteq> None \<and> transform \<noteq> None
      then Some (new_GeometryTransform child transform)
      else None)"

text \<open>\<^verbatim>\<open>const sk_sp<Transform>& getTransform() const { return fTransform; }\<close>\<close>

definition getTransform :: "('g, 't) GeometryTransform \<Rightarrow> 't option" where
  "getTransform n = fTransform n"

section \<open>Example values\<close>

text \<open>
Concrete quads, lists, transforms and vector operations at which the theorems below are
  instantiated. The scalars are real numbers; \<open>ex_ops\<close> is exact arithmetic.
\<close>

definition ex_quad :: "real GrQuad" where
  "ex_quad = GrQuad (Float4 0 0 2 2) (Float4 0 1 0 1)"

definition ex_persp :: "real GrPerspQuad" where
  "ex_persp = GrPerspQuad (Float4 0 0 4 4) (Float4 0 2 0 2) (Float4 2 2 2 2)"

definition ex_persp_ones :: "real GrPerspQuad" where
  "ex_persp_ones = GrPerspQuad (Float4 0 0 4 4) (Float4 0 2 0 2) (Float4 1 1 1 1)"

definition ex_list_A :: "(real, unit) GrQuadListBase" where
  "ex_list_A = push_back (PushQuad ex_quad kRect ()) empty_list"

definition ex_list_B :: "(real, unit) GrQuadListBase" where
  "ex_list_B = push_back (PushPersp ex_persp kPerspective ()) empty_list"

definition ex_ops :: "real sk4f_ops" where
  "ex_ops =
     \<lparr>lane_mul = (\<lambda>a b. a * b), lane_invert = (\<lambda>a. 1 / a),
      reduce_min = (\<lambda>v. min (min (f0 v) (f1 v)) (min (f2 v) (f3 v))),
      reduce_max = (\<lambda>v. max (max (f0 v) (f1 v)) (max (f2 v) (f3 v)))\<rparr>"

definition ex_rect :: "real SkRect" where
  "ex_rect = \<lparr>fLeft = 0, fTop = 0, fRight = 2, fBottom = 1\<rparr>"

definition ex_flat_rect :: "real SkRect" where
  "ex_flat_rect = \<lparr>fLeft = 0, fTop = 1, fRight = 2, fBottom = 1\<rparr>"

definition ex_shear :: SkMatrix where
  "ex_shear =
     \<lparr>scaleX = 1, skewX = 1, transX = 0, skewY = 0, scaleY = 1, transY = 0,
      persp0 = 0, persp1 = 0, persp2 = 1\<rparr>"

definition ex_persp_matrix :: SkMatrix where
  "ex_persp_matrix =
     \<lparr>scaleX = 1, skewX = 0, transX = 0, skewY = 0, scaleY = 1, transY = 0,
      persp0 = 1, persp1 = 0, persp2 = 1\<rparr>"

definition ex_rotation :: SkMatrix where
  "ex_rotation = rotate_matrix (3 / 5) (4 / 5)"

section \<open>The order of the quad types\<close>

lemma GrQuadType_max_perspective: "max t kPerspective = kPerspective" "max kPerspective t = kPerspective"
  by (cases t; simp add: max_def less_eq_GrQuadType_def)+

lemma GrQuadType_gt_iff: "(t > (s::GrQuadType)) = (quad_rank s < quad_rank t)"
  by (simp add: less_GrQuadType_def)

lemma kStandard_not_perspective: "t \<le> kStandard \<Longrightarrow> t \<noteq> kPerspective"
  by (auto simp: less_eq_GrQuadType_def)

section \<open>The storage invariant\<close>

lemma fType_upgradeType: "fType (upgradeType t l) = max (fType l) t"
  by (auto simp: upgradeType_def Let_def max_def)

lemma fXYs_upgradeType: "fXYs (upgradeType t l) = fXYs l"
  by (simp add: upgradeType_def Let_def)

lemma count_upgradeType: "count (upgradeType t l) = count l"
  by (simp add: count_def fXYs_upgradeType)

lemma fWs_upgradeType:
  "fWs (upgradeType t l) =
     (if t = kPerspective \<and> fType l \<noteq> kPerspective
      then fWs l @ replicate (4 * length (fXYs l)) 1 else fWs l)"
  by (cases "fType l"; cases t;
      simp add: upgradeType_def Let_def push_back_n_fill_def count_def less_GrQuadType_def)

lemma list_inv_upgradeType: "list_inv l \<Longrightarrow> list_inv (upgradeType t l)"
  by (cases "fType l"; cases t;
      simp add: list_inv_def fType_upgradeType fXYs_upgradeType fWs_upgradeType max_def less_eq_GrQuadType_def)

lemma list_inv_pushBackImpl_quad: "list_inv l \<Longrightarrow> list_inv (pushBackImpl_quad q t md l)"
  using list_inv_upgradeType [of l t]
  by (simp add: pushBackImpl_quad_def Let_def list_inv_def push_back_n_fill_def split: if_splits)

lemma length_list_of4: "length (list_of4 v) = 4"
  by (cases v) simp

lemma list_inv_pushBackImpl_persp: "list_inv l \<Longrightarrow> list_inv (pushBackImpl_persp q t md l)"
  using list_inv_upgradeType [of l t]
  by (simp add: pushBackImpl_persp_def Let_def list_inv_def push_back_n_copy_def length_list_of4 split: if_splits)

lemma list_inv_push_back: "list_inv l \<Longrightarrow> list_inv (push_back a l)"
  by (cases a) (simp_all add: list_inv_pushBackImpl_quad list_inv_pushBackImpl_persp)

lemma fType_concatImpl: "fType (concatImpl that l) = max (fType l) (fType that)"
  by (simp add: concatImpl_def Let_def fType_upgradeType)

lemma fXYs_concatImpl: "fXYs (concatImpl that l) = fXYs l @ fXYs that"
  by (simp add: concatImpl_def Let_def fXYs_upgradeType push_back_n_copy_def)

lemma fWs_concatImpl:
  "list_inv l \<Longrightarrow> list_inv that \<Longrightarrow>
   fWs (concatImpl that l) =
     (if max (fType l) (fType that) = kPerspective
      then (if fType l = kPerspective then fWs l else replicate (4 * length (fXYs l)) 1) @
           (if fType that = kPerspective then fWs that else replicate (4 * length (fXYs that)) 1)
      else [])"
  by (cases "fType l"; cases "fType that";
      simp add: concatImpl_def Let_def fType_upgradeType fWs_upgradeType fXYs_upgradeType
        push_back_n_copy_def push_back_n_fill_def count_def list_inv_def max_def less_eq_GrQuadType_def)

lemma list_inv_concatImpl: "list_inv l \<Longrightarrow> list_inv that \<Longrightarrow> list_inv (concatImpl that l)"
  by (cases "fType l"; cases "fType that";
      simp add: list_inv_def fType_concatImpl fXYs_concatImpl fWs_concatImpl max_def less_eq_GrQuadType_def)

lemma list_inv_empty: "list_inv empty_list"
  by (simp add: list_inv_def empty_list_def)

lemma reachable_list_inv: "reachable l \<Longrightarrow> list_inv l"
  by (induction rule: reachable.induct)
     (simp_all add: list_inv_empty list_inv_push_back concat_list_def list_inv_concatImpl)

section \<open>Reading four weights\<close>

lemma load4_append_right: "load4 (xs @ ys) (length xs + k) = load4 ys k"
  by (simp add: load4_def)

lemma length_ge4E:
  assumes "4 \<le> length zs"
  obtains a b c d r where "zs = a # b # c # d # r"
proof -
  from assms obtain a z1 where 1: "zs = a # z1" by (cases zs) auto
  with assms obtain b z2 where 2: "z1 = b # z2" by (cases z1) auto
  with assms 1 obtain c z3 where 3: "z2 = c # z3" by (cases z2) auto
  with assms 1 2 obtain d r where 4: "z3 = d # r" by (cases z3) auto
  from 1 2 3 4 that show thesis by blast
qed

lemma load4_append_left: "k + 4 \<le> length xs \<Longrightarrow> load4 (xs @ ys) k = load4 xs k"
proof -
  assume h: "k + 4 \<le> length xs"
  then have "4 \<le> length (drop k xs)" by simp
  then obtain a b c d r where "drop k xs = a # b # c # d # r"
    by (rule length_ge4E)
  then show ?thesis using h by (simp add: load4_def)
qed

lemma load4_replicate: "k + 4 \<le> n \<Longrightarrow> load4 (replicate n v) k = Some (Float4 v v v v)"
proof -
  assume "k + 4 \<le> n"
  then have "n - k = Suc (Suc (Suc (Suc (n - k - 4))))" by simp
  then have "replicate (n - k) v = v # v # v # v # replicate (n - k - 4) v"
    by (metis replicate_Suc)
  then show ?thesis by (simp add: load4_def)
qed

lemma load4_Some:
  assumes "k + 4 \<le> length xs"
  shows "\<exists>v. load4 xs k = Some v"
proof -
  from assms have "4 \<le> length (drop k xs)" by simp
  then obtain a b c d r where "drop k xs = a # b # c # d # r"
    by (rule length_ge4E)
  then show ?thesis by (simp add: load4_def)
qed

section \<open>The indexed view\<close>

lemma index_op_plain:
  "fType l \<noteq> kPerspective \<Longrightarrow> 0 \<le> i \<Longrightarrow> i < int (count l) \<Longrightarrow>
   index_op l i = Some (GrPerspQuad (fX (fXYs l ! nat i)) (fY (fXYs l ! nat i)) (Float4 1 1 1 1))"
  by (simp add: index_op_def Let_def kNoPerspectiveWs_def)

lemma index_op_persp:
  "fType l = kPerspective \<Longrightarrow> 0 \<le> i \<Longrightarrow> i < int (count l) \<Longrightarrow>
   index_op l i = map_option (GrPerspQuad (fX (fXYs l ! nat i)) (fY (fXYs l ! nat i)))
                    (load4 (fWs l) (4 * nat i))"
  by (simp add: index_op_def Let_def split: option.splits)

lemma index_op_defined:
  assumes "list_inv l" "0 \<le> i" "i < int (count l)"
  shows "\<exists>q. index_op l i = Some q"
proof (cases "fType l = kPerspective")
  case True
  with assms have "4 * nat i + 4 \<le> length (fWs l)"
    by (simp add: list_inv_def count_def)
  then obtain v where "load4 (fWs l) (4 * nat i) = Some v"
    using load4_Some by blast
  with True assms show ?thesis by (simp add: index_op_persp)
next
  case False
  with assms show ?thesis by (simp add: index_op_plain)
qed

lemma index_op_concatImpl:
  assumes A: "list_inv A" and B: "list_inv B" and i: "0 \<le> i" "i < int (count B)"
  shows "index_op (concatImpl B A) (int (count A) + i) = index_op B i"
proof -
  let ?C = "concatImpl B A"
  have n: "nat (int (count A) + i) = length (fXYs A) + nat i"
    using i by (simp add: count_def nat_add_distrib)
  have cnt: "count ?C = count A + count B"
    by (simp add: count_def fXYs_concatImpl)
  have rng: "0 \<le> int (count A) + i" "int (count A) + i < int (count ?C)"
    using i cnt by simp_all
  have it: "fXYs ?C ! nat (int (count A) + i) = fXYs B ! nat i"
    by (simp add: n fXYs_concatImpl)
  have iB: "4 * nat i + 4 \<le> 4 * length (fXYs B)"
    using i by (simp add: count_def)
  show ?thesis
  proof (cases "fType ?C = kPerspective")
    case False
    then have "fType B \<noteq> kPerspective"
      by (auto simp: fType_concatImpl GrQuadType_max_perspective)
    with False rng i it show ?thesis
      by (simp add: index_op_plain)
  next
    case True
    then have mx: "max (fType A) (fType B) = kPerspective"
      by (simp add: fType_concatImpl)
    let ?wa = "if fType A = kPerspective then fWs A else replicate (4 * length (fXYs A)) 1"
    let ?wb = "if fType B = kPerspective then fWs B else replicate (4 * length (fXYs B)) 1"
    have ws: "fWs ?C = ?wa @ ?wb"
      using fWs_concatImpl [OF A B] mx by simp
    have la: "length ?wa = 4 * length (fXYs A)"
      using A by (simp add: list_inv_def)
    have "load4 (fWs ?C) (4 * nat (int (count A) + i)) = load4 (?wa @ ?wb) (length ?wa + 4 * nat i)"
      by (simp only: ws n la distrib_left)
    also have "\<dots> = load4 ?wb (4 * nat i)"
      by (rule load4_append_right)
    finally have ld: "load4 (fWs ?C) (4 * nat (int (count A) + i)) = load4 ?wb (4 * nat i)" .
    show ?thesis
    proof (cases "fType B = kPerspective")
      case True
      with \<open>fType ?C = kPerspective\<close> rng i it ld show ?thesis
        by (simp add: index_op_persp)
    next
      case False
      have "load4 ?wb (4 * nat i) = Some (Float4 1 1 1 1)"
        using False iB by (simp add: load4_replicate)
      with False \<open>fType ?C = kPerspective\<close> rng i it ld show ?thesis
        by (simp add: index_op_persp index_op_plain)
    qed
  qed
qed

section \<open>The example lists, evaluated\<close>

lemmas ex_defs = ex_quad_def ex_persp_def ex_list_A_def ex_list_B_def

lemmas op_defs = pushBackImpl_quad_def pushBackImpl_persp_def upgradeType_def concatImpl_def
  concat_list_def push_back_n_fill_def push_back_n_copy_def empty_list_def count_def quadType_def
  less_GrQuadType_def less_eq_GrQuadType_def Let_def

lemma ex_list_A_eq:
  "ex_list_A = \<lparr>fXYs = [\<lparr>fX = Float4 0 0 2 2, fY = Float4 0 1 0 1, fMetadata = ()\<rparr>], fWs = [], fType = kRect\<rparr>"
  by (simp add: ex_defs op_defs)

lemma ex_list_B_eq:
  "ex_list_B = \<lparr>fXYs = [\<lparr>fX = Float4 0 0 4 4, fY = Float4 0 2 0 2, fMetadata = ()\<rparr>],
     fWs = [2, 2, 2, 2], fType = kPerspective\<rparr>"
  by (simp add: ex_defs op_defs)

lemma ex_concat_eq:
  "concat_list ex_list_B ex_list_A =
     \<lparr>fXYs = [\<lparr>fX = Float4 0 0 2 2, fY = Float4 0 1 0 1, fMetadata = ()\<rparr>,
              \<lparr>fX = Float4 0 0 4 4, fY = Float4 0 2 0 2, fMetadata = ()\<rparr>],
      fWs = [1, 1, 1, 1, 2, 2, 2, 2], fType = kPerspective\<rparr>"
  by (simp add: ex_list_A_eq ex_list_B_eq op_defs numeral_eq_Suc)

section \<open>Concatenation\<close>

text \<open>
Claim C1. For two lists \<open>A\<close> and \<open>B\<close> that satisfy the storage invariant (as every list
  built by \<^verbatim>\<open>push_back\<close> and \<^verbatim>\<open>concat\<close> does), \<^verbatim>\<open>A.concat(B)\<close> has the tracked type
  \<open>max tA tB\<close> and \<open>count A + count B\<close> entries, and its entry at \<open>count A + i\<close>, read
  through \<^verbatim>\<open>operator[]\<close> with its weights, is the entry \<open>B[i]\<close>, for every index \<open>i\<close> of
  \<open>B\<close>. The list \<open>B\<close> is a list of its own: the model takes its value, as the source does
  when \<open>that\<close> is not \<open>this\<close>.
\<close>

theorem concat_appends:
  assumes "list_inv A" and "list_inv B"
  shows "quadType (concat_list B A) = max (quadType A) (quadType B) \<and>
         count (concat_list B A) = count A + count B \<and>
         (\<forall>i. 0 \<le> i \<and> i < int (count B) \<longrightarrow>
              (\<exists>q. index_op B i = Some q \<and>
                   index_op (concat_list B A) (int (count A) + i) = Some q))"
proof (intro conjI allI impI)
  show "quadType (concat_list B A) = max (quadType A) (quadType B)"
    by (simp add: quadType_def concat_list_def fType_concatImpl)
  show "count (concat_list B A) = count A + count B"
    by (simp add: count_def concat_list_def fXYs_concatImpl)
next
  fix i assume i: "0 \<le> i \<and> i < int (count B)"
  then obtain q where q: "index_op B i = Some q"
    using index_op_defined [OF assms(2)] by blast
  moreover have "index_op (concat_list B A) (int (count A) + i) = index_op B i"
    using index_op_concatImpl [OF assms] i by (simp add: concat_list_def)
  ultimately show "\<exists>q. index_op B i = Some q \<and>
      index_op (concat_list B A) (int (count A) + i) = Some q"
    by simp
qed

theorem concat_appends_witness:
  "list_inv ex_list_A \<and> list_inv ex_list_B \<and>
   quadType (concat_list ex_list_B ex_list_A) = kPerspective \<and>
   count (concat_list ex_list_B ex_list_A) = 2 \<and>
   index_op ex_list_B 0 = Some ex_persp \<and>
   index_op (concat_list ex_list_B ex_list_A) 1 = Some ex_persp"
proof -
  have a: "list_inv ex_list_A" by (simp add: list_inv_def ex_list_A_eq)
  have b: "list_inv ex_list_B" by (simp add: list_inv_def ex_list_B_eq)
  have q: "index_op ex_list_B 0 = Some ex_persp"
    by (simp add: index_op_def ex_list_B_eq ex_persp_def count_def load4_def)
  have t: "quadType ex_list_A = kRect" "quadType ex_list_B = kPerspective"
    "count ex_list_A = 1" "count ex_list_B = 1"
    by (simp_all add: ex_list_A_eq ex_list_B_eq quadType_def count_def)
  note c = concat_appends [OF a b]
  from c have c1:
    "quadType (concat_list ex_list_B ex_list_A) = max (quadType ex_list_A) (quadType ex_list_B)"
    and c2: "count (concat_list ex_list_B ex_list_A) = count ex_list_A + count ex_list_B"
    by simp_all
  from c t have c3: "\<exists>q. index_op ex_list_B 0 = Some q \<and>
         index_op (concat_list ex_list_B ex_list_A) (int (count ex_list_A) + 0) = Some q"
    by (elim conjE allE [of _ "0::int"]) simp
  from a b q t c1 c2 c3 show ?thesis
    by (simp add: max_def less_eq_GrQuadType_def)
qed

section \<open>Backfill of the weights\<close>

lemma fType_push_back: "fType (push_back a l) = max (fType l) (declared_type a)"
  by (cases a) (simp_all add: pushBackImpl_quad_def pushBackImpl_persp_def Let_def fType_upgradeType)

lemma fXYs_push_back_length: "length (fXYs (push_back a l)) = Suc (length (fXYs l))"
  by (cases a) (simp_all add: pushBackImpl_quad_def pushBackImpl_persp_def Let_def fXYs_upgradeType)

lemma fXYs_push_back_prefix: "\<exists>it. fXYs (push_back a l) = fXYs l @ [it]"
  by (cases a) (simp_all add: pushBackImpl_quad_def pushBackImpl_persp_def Let_def fXYs_upgradeType)

lemma fWs_push_back_prefix:
  "\<exists>ws. fWs (push_back a l) = fWs (upgradeType (declared_type a) l) @ ws"
  by (cases a)
     (simp_all add: pushBackImpl_quad_def pushBackImpl_persp_def Let_def
        push_back_n_fill_def push_back_n_copy_def)

lemma fType_push_all_le:
  "\<forall>a\<in>set args. declared_type a \<le> t \<Longrightarrow> fType l \<le> t \<Longrightarrow> fType (push_all args l) \<le> t"
  by (induction args arbitrary: l) (simp_all add: fType_push_back)

lemma count_push_all: "count (push_all args l) = count l + length args"
  by (induction args arbitrary: l) (simp_all add: count_def fXYs_push_back_length)

lemma list_inv_push_all: "list_inv l \<Longrightarrow> list_inv (push_all args l)"
  by (induction args arbitrary: l) (simp_all add: list_inv_push_back)

text \<open>
Claim C2. Pushing N quads (of either class) with declared types at most Standard into a
  fresh list and then one quad with declared type Perspective leaves the tracked type
  Perspective, and every one of the first N entries read back through \<^verbatim>\<open>operator[]\<close> has
  its four weights equal to 1.
\<close>

theorem backfill_on_first_perspective:
  assumes args: "\<forall>a\<in>set args. declared_type a \<le> kStandard"
    and final: "declared_type final = kPerspective"
  shows "quadType (push_back final (push_all args empty_list)) = kPerspective \<and>
         (\<forall>i. 0 \<le> i \<and> i < int (length args) \<longrightarrow>
              (\<exists>q. index_op (push_back final (push_all args empty_list)) i = Some q \<and>
                   persp_fW q = Float4 1 1 1 1))"
proof (intro conjI allI impI)
  let ?l = "push_all args empty_list"
  let ?r = "push_back final ?l"
  have ty: "fType ?r = kPerspective"
    by (simp add: fType_push_back final GrQuadType_max_perspective)
  then show "quadType ?r = kPerspective"
    by (simp add: quadType_def)
  have "fType ?l \<le> kStandard"
    using args by (rule fType_push_all_le) (simp add: empty_list_def less_eq_GrQuadType_def)
  then have np: "fType ?l \<noteq> kPerspective"
    by (rule kStandard_not_perspective)
  have inv: "list_inv ?l"
    by (rule list_inv_push_all) (rule list_inv_empty)
  with np have "fWs ?l = []"
    by (simp add: list_inv_def)
  then have up: "fWs (upgradeType kPerspective ?l) = replicate (4 * length (fXYs ?l)) 1"
    using np by (simp add: fWs_upgradeType)
  obtain ws where ws: "fWs ?r = replicate (4 * length (fXYs ?l)) 1 @ ws"
    using fWs_push_back_prefix [of final ?l] up final by auto
  obtain it where it: "fXYs ?r = fXYs ?l @ [it]"
    using fXYs_push_back_prefix [of final ?l] by blast
  have cnt: "length (fXYs ?l) = length args"
    using count_push_all [of args empty_list] by (simp add: count_def empty_list_def)
  fix i assume i: "0 \<le> i \<and> i < int (length args)"
  then have "nat i < length args" by linarith
  then have k: "4 * nat i + 4 \<le> 4 * length args" by linarith
  have "load4 (fWs ?r) (4 * nat i) = load4 (replicate (4 * length args) 1) (4 * nat i)"
    unfolding ws cnt by (rule load4_append_left) (use k in simp)
  also have "\<dots> = Some (Float4 1 1 1 1)"
    using k by (rule load4_replicate)
  finally have ld: "load4 (fWs ?r) (4 * nat i) = Some (Float4 1 1 1 1)" .
  have "i < int (count ?r)"
    using i by (simp add: count_def it cnt)
  with ty i ld show "\<exists>q. index_op ?r i = Some q \<and> persp_fW q = Float4 1 1 1 1"
    by (simp add: index_op_persp)
qed

theorem backfill_on_first_perspective_witness:
  "declared_type (PushQuad ex_quad kRect ()) \<le> kStandard \<and>
   declared_type (PushPersp ex_persp kStandard ()) \<le> kStandard \<and>
   quadType (push_back (PushPersp ex_persp kPerspective ())
      (push_all [PushQuad ex_quad kRect (), PushPersp ex_persp kStandard ()] empty_list)) = kPerspective \<and>
   (\<exists>q. index_op (push_back (PushPersp ex_persp kPerspective ())
      (push_all [PushQuad ex_quad kRect (), PushPersp ex_persp kStandard ()] empty_list)) 1 = Some q \<and>
      persp_fW q = Float4 1 1 1 1)"
proof -
  let ?args = "[PushQuad ex_quad kRect (), PushPersp ex_persp kStandard ()]"
  let ?final = "PushPersp ex_persp kPerspective ()"
  have h: "\<forall>a\<in>set ?args. declared_type a \<le> kStandard"
    by (simp add: less_eq_GrQuadType_def)
  have f: "declared_type ?final = kPerspective"
    by simp
  note c = backfill_on_first_perspective [OF h f]
  from c have c1: "quadType (push_back ?final (push_all ?args empty_list)) = kPerspective"
    by simp
  from c have c2: "\<exists>q. index_op (push_back ?final (push_all ?args empty_list)) 1 = Some q \<and>
      persp_fW q = Float4 1 1 1 1"
    by (elim conjE allE [of _ "1::int"]) simp
  from c1 c2 show ?thesis
    by (simp add: less_eq_GrQuadType_def)
qed

section \<open>The invariant of reachable lists\<close>

text \<open>
Claim C3. In every list reachable from the empty list by \<^verbatim>\<open>push_back\<close> and \<^verbatim>\<open>concat\<close>:
  when the tracked type is Perspective the weight array holds four floats for each entry;
  when it is below Perspective the weight array is empty and every entry read through
  \<^verbatim>\<open>operator[]\<close> has its four weights equal to 1.
\<close>

theorem reachable_weights_invariant:
  assumes "reachable l"
  shows "(quadType l = kPerspective \<longrightarrow> length (fWs l) = 4 * count l) \<and>
         (quadType l < kPerspective \<longrightarrow>
            fWs l = [] \<and>
            (\<forall>i. 0 \<le> i \<and> i < int (count l) \<longrightarrow>
                 (\<exists>q. index_op l i = Some q \<and> persp_fW q = Float4 1 1 1 1)))"
proof -
  have inv: "list_inv l"
    using assms by (rule reachable_list_inv)
  show ?thesis
  proof (intro conjI impI allI)
    assume "quadType l = kPerspective"
    with inv show "length (fWs l) = 4 * count l"
      by (simp add: list_inv_def quadType_def count_def)
  next
    assume "quadType l < kPerspective"
    then have np: "fType l \<noteq> kPerspective"
      by (auto simp: quadType_def)
    with inv show "fWs l = []"
      by (simp add: list_inv_def)
    fix i assume "0 \<le> i \<and> i < int (count l)"
    with np show "\<exists>q. index_op l i = Some q \<and> persp_fW q = Float4 1 1 1 1"
      by (simp add: index_op_plain)
  qed
qed

theorem reachable_weights_invariant_witness:
  "reachable ex_list_A \<and> quadType ex_list_A < kPerspective \<and> fWs ex_list_A = [] \<and>
   (\<exists>q. index_op ex_list_A 0 = Some q \<and> persp_fW q = Float4 1 1 1 1) \<and>
   reachable ex_list_B \<and> quadType ex_list_B = kPerspective \<and>
   length (fWs ex_list_B) = 4 * count ex_list_B"
proof -
  have a: "reachable ex_list_A"
    unfolding ex_list_A_def by (rule r_push) (rule r_empty)
  have b: "reachable ex_list_B"
    unfolding ex_list_B_def by (rule r_push) (rule r_empty)
  have ta: "quadType ex_list_A < kPerspective" "0 < int (count ex_list_A)"
    by (simp_all add: ex_list_A_eq quadType_def count_def less_GrQuadType_def)
  have tb: "quadType ex_list_B = kPerspective"
    by (simp add: ex_list_B_eq quadType_def)
  note ca = reachable_weights_invariant [OF a]
  from ca ta have c1: "fWs ex_list_A = []" by simp
  have ti: "(0::int) \<le> 0 \<and> 0 < int (count ex_list_A)"
    using ta by simp
  from ca ta(1) ti have c2: "\<exists>q. index_op ex_list_A 0 = Some q \<and> persp_fW q = Float4 1 1 1 1"
    by blast
  from reachable_weights_invariant [OF b] tb
  have c3: "length (fWs ex_list_B) = 4 * count ex_list_B" by simp
  from a b ta tb c1 c2 c3 show ?thesis by simp
qed

section \<open>Classification\<close>

lemmas matrix_defs = mapsRectToRect_def rectStaysRect_def matrix_hasPerspective_def
  matrix_hasSkew_def GrQuad_of_rect_matrix_def GrQuad_of_rect_def mapX_def mapY_def

lemma rectStaysRect_iff: "rectStaysRect m \<longleftrightarrow> (\<forall>rect. mapsRectToRect m rect)"
proof
  assume "rectStaysRect m"
  then show "\<forall>rect. mapsRectToRect m rect"
    by (auto simp: matrix_defs)
next
  assume "\<forall>rect. mapsRectToRect m rect"
  then have "mapsRectToRect m \<lparr>fLeft = 0, fTop = 0, fRight = 1, fBottom = 1\<rparr>"
    by (rule spec)
  then show "rectStaysRect m"
    by (simp add: matrix_defs)
qed

lemma diagonal_no_skew: "skewX m = 0 \<Longrightarrow> skewY m = 0 \<Longrightarrow> \<not> matrix_hasSkew m"
  by (simp add: matrix_hasSkew_def)

lemma rotation_no_skew: "\<not> matrix_hasSkew (rotate_matrix c s)"
  by (simp add: matrix_hasSkew_def rotate_matrix_def)

lemma rotation_no_perspective: "\<not> matrix_hasPerspective (rotate_matrix c s)"
  by (simp add: matrix_hasPerspective_def rotate_matrix_def)

lemma rectStaysRect_rotation: "rectStaysRect (rotate_matrix c s) \<longleftrightarrow> c = 0 \<or> s = 0"
  by (auto simp: rectStaysRect_def matrix_hasPerspective_def rotate_matrix_def)

lemma rectStaysRect_identity: "rectStaysRect identity_matrix"
  by (simp add: rectStaysRect_def matrix_hasPerspective_def identity_matrix_def)

lemma classify_cases:
  "classify rect m =
     (if rectStaysRect m then kRect
      else if \<not> matrix_hasPerspective m \<and> \<not> matrix_hasSkew m then kRectilinear
      else if \<not> matrix_hasPerspective m then kStandard
      else kPerspective)"
  by (simp add: classify_def GrQuadTypeForTransformedRect_def)

text \<open>
Claim C5 as stated fails in two places. The rotation by 90 degrees maps every rectangle
  to an axis-aligned rectangle (the mirrored pairing of the corners holds), so the first
  case matches and the result is Rect, not Rectilinear. And the declared function takes the
  matrix alone: a shear maps a rectangle of height zero to an axis-aligned one, and is
  Standard all the same.
\<close>

theorem classify_rotate90_counterexample:
  "mapsRectToRect rotate90_matrix ex_rect \<and>
   classify ex_rect rotate90_matrix = kRect \<and>
   classify ex_rect rotate90_matrix \<noteq> kRectilinear \<and>
   mapsRectToRect ex_shear ex_flat_rect \<and>
   classify ex_flat_rect ex_shear = kStandard \<and>
   classify ex_flat_rect ex_shear \<noteq> kRect"
  by (simp add: classify_cases rotate90_matrix_def rotate_matrix_def ex_shear_def ex_rect_def
        ex_flat_rect_def matrix_defs)

text \<open>
Claim C5, amended. \<open>classify\<close> takes the first case that matches: Rect when the transform
  maps every rectangle to an axis-aligned rectangle (mirroring allowed); otherwise
  Rectilinear when the transform has neither a perspective row nor skew; otherwise Standard
  when it has no perspective row; otherwise Perspective. For every rectangle the identity
  yields Rect, and so does the rotation by 90 degrees; a rotation by an angle that is not a
  multiple of 90 degrees (cosine and sine both non-zero) yields Rectilinear, not Standard.
\<close>

theorem classify_first_match:
  "((\<forall>r. mapsRectToRect m r) \<longrightarrow> classify rect m = kRect) \<and>
   (\<not> (\<forall>r. mapsRectToRect m r) \<and> \<not> matrix_hasPerspective m \<and> \<not> matrix_hasSkew m \<longrightarrow>
      classify rect m = kRectilinear) \<and>
   (\<not> (\<forall>r. mapsRectToRect m r) \<and> \<not> matrix_hasPerspective m \<and> matrix_hasSkew m \<longrightarrow>
      classify rect m = kStandard) \<and>
   (\<not> (\<forall>r. mapsRectToRect m r) \<and> matrix_hasPerspective m \<longrightarrow>
      classify rect m = kPerspective) \<and>
   classify rect identity_matrix = kRect \<and>
   classify rect rotate90_matrix = kRect \<and>
   (c\<^sup>2 + s\<^sup>2 = 1 \<and> c \<noteq> 0 \<and> s \<noteq> 0 \<longrightarrow> classify rect (rotate_matrix c s) = kRectilinear)"
proof (intro conjI impI)
  show "classify rect identity_matrix = kRect"
    by (simp add: classify_cases rectStaysRect_identity)
  show "classify rect rotate90_matrix = kRect"
    by (simp add: classify_cases rotate90_matrix_def rectStaysRect_rotation)
next
  assume "c\<^sup>2 + s\<^sup>2 = 1 \<and> c \<noteq> 0 \<and> s \<noteq> 0"
  then show "classify rect (rotate_matrix c s) = kRectilinear"
    by (simp add: classify_cases rectStaysRect_rotation rotation_no_skew rotation_no_perspective)
qed (simp_all add: classify_cases rectStaysRect_iff [symmetric])

theorem classify_first_match_witness:
  "(\<forall>r. mapsRectToRect identity_matrix r) \<and> classify ex_rect identity_matrix = kRect \<and>
   \<not> (\<forall>r. mapsRectToRect ex_rotation r) \<and> \<not> matrix_hasPerspective ex_rotation \<and>
   \<not> matrix_hasSkew ex_rotation \<and> classify ex_rect ex_rotation = kRectilinear \<and>
   \<not> (\<forall>r. mapsRectToRect ex_shear r) \<and> \<not> matrix_hasPerspective ex_shear \<and>
   matrix_hasSkew ex_shear \<and> classify ex_rect ex_shear = kStandard \<and>
   \<not> (\<forall>r. mapsRectToRect ex_persp_matrix r) \<and> matrix_hasPerspective ex_persp_matrix \<and>
   classify ex_rect ex_persp_matrix = kPerspective \<and>
   classify ex_rect rotate90_matrix = kRect \<and>
   (3 / 5 :: real)\<^sup>2 + (4 / 5)\<^sup>2 = 1 \<and>
   classify ex_rect (rotate_matrix (3 / 5) (4 / 5)) = kRectilinear"
proof -
  have i: "\<forall>r. mapsRectToRect identity_matrix r"
    using rectStaysRect_identity by (simp add: rectStaysRect_iff)
  have r: "\<not> (\<forall>r. mapsRectToRect ex_rotation r)" "\<not> matrix_hasPerspective ex_rotation"
    "\<not> matrix_hasSkew ex_rotation"
    by (simp_all add: rectStaysRect_iff [symmetric] ex_rotation_def rectStaysRect_rotation
          rotation_no_skew rotation_no_perspective)
  have s: "\<not> (\<forall>r. mapsRectToRect ex_shear r)" "\<not> matrix_hasPerspective ex_shear"
    "matrix_hasSkew ex_shear"
    by (simp_all add: rectStaysRect_iff [symmetric] rectStaysRect_def matrix_hasPerspective_def
          matrix_hasSkew_def ex_shear_def)
  have p: "\<not> (\<forall>r. mapsRectToRect ex_persp_matrix r)" "matrix_hasPerspective ex_persp_matrix"
    by (simp_all add: rectStaysRect_iff [symmetric] rectStaysRect_def matrix_hasPerspective_def
          ex_persp_matrix_def)
  have u: "(3 / 5 :: real)\<^sup>2 + (4 / 5)\<^sup>2 = 1 \<and> (3 / 5 :: real) \<noteq> 0 \<and> (4 / 5 :: real) \<noteq> 0"
    by (simp add: power2_eq_square)
  from classify_first_match [of identity_matrix ex_rect 0 0] i
  have a: "classify ex_rect identity_matrix = kRect" by blast
  from classify_first_match [of ex_rotation ex_rect 0 0] r
  have b: "classify ex_rect ex_rotation = kRectilinear" by blast
  from classify_first_match [of ex_shear ex_rect 0 0] s
  have c: "classify ex_rect ex_shear = kStandard" by blast
  from classify_first_match [of ex_persp_matrix ex_rect 0 0] p
  have d: "classify ex_rect ex_persp_matrix = kPerspective" by blast
  from classify_first_match [of identity_matrix ex_rect 0 0]
  have e: "classify ex_rect rotate90_matrix = kRect" by blast
  from classify_first_match [of identity_matrix ex_rect "3 / 5" "4 / 5"] u
  have f: "classify ex_rect (rotate_matrix (3 / 5) (4 / 5)) = kRectilinear" by blast
  from i r s p u a b c d e f show ?thesis by blast
qed

section \<open>Bounds of a perspective quad\<close>

lemma Sk4f_mul_invert_splat:
  "\<forall>v. lane_mul ops v (lane_invert ops c) = g v \<Longrightarrow>
   Sk4f_mul ops x (Sk4f_invert ops (Sk4f_splat c)) = map4 g x"
  by (cases x) (simp add: Sk4f_splat_def)

lemma map4_ident: "map4 (\<lambda>v. v) x = x"
  by (cases x) simp

text \<open>
Claim C6. \<^verbatim>\<open>GrPerspQuad::bounds(type)\<close> multiplies x and y by the reciprocal of w before it
  takes the extrema exactly when \<open>type\<close> is Perspective, and otherwise returns the bounds of
  the raw x and y, which are those of \<^verbatim>\<open>GrQuad::bounds\<close>. With all four weights equal to a
  float \<open>two\<close> such that multiplying by its reciprocal is the halving \<open>half\<close> (as for the
  float 2.0), \<open>bounds(Perspective)\<close> is the bounds of the halved coordinates; with all four
  weights 1, where multiplying by the reciprocal of 1 changes nothing, it is the raw bounds.
\<close>

theorem GrPerspQuad_bounds_divides_iff_perspective:
  "(type = kPerspective \<longrightarrow>
      GrPerspQuad_bounds ops q type =
        GrQuad_bounds ops (GrQuad (Sk4f_mul ops (persp_fX q) (Sk4f_invert ops (persp_fW q)))
                                  (Sk4f_mul ops (persp_fY q) (Sk4f_invert ops (persp_fW q))))) \<and>
   (type \<noteq> kPerspective \<longrightarrow>
      GrPerspQuad_bounds ops q type = GrQuad_bounds ops (GrQuad (persp_fX q) (persp_fY q))) \<and>
   (persp_fW q = Float4 two two two two \<and> (\<forall>v. lane_mul ops v (lane_invert ops two) = half v) \<longrightarrow>
      GrPerspQuad_bounds ops q kPerspective =
        GrQuad_bounds ops (GrQuad (map4 half (persp_fX q)) (map4 half (persp_fY q)))) \<and>
   (persp_fW q = Float4 1 1 1 1 \<and> (\<forall>v. lane_mul ops v (lane_invert ops 1) = v) \<longrightarrow>
      GrPerspQuad_bounds ops q kPerspective =
        GrQuad_bounds ops (GrQuad (persp_fX q) (persp_fY q)))"
proof (intro conjI impI)
  assume "type = kPerspective"
  then show "GrPerspQuad_bounds ops q type =
        GrQuad_bounds ops (GrQuad (Sk4f_mul ops (persp_fX q) (Sk4f_invert ops (persp_fW q)))
                                  (Sk4f_mul ops (persp_fY q) (Sk4f_invert ops (persp_fW q))))"
    by (simp add: GrPerspQuad_bounds_def GrQuad_bounds_def iw4f_def w4f_def Let_def)
next
  assume "type \<noteq> kPerspective"
  then show "GrPerspQuad_bounds ops q type = GrQuad_bounds ops (GrQuad (persp_fX q) (persp_fY q))"
    by (simp add: GrPerspQuad_bounds_def GrQuad_bounds_def Let_def)
next
  assume h: "persp_fW q = Float4 two two two two \<and>
    (\<forall>v. lane_mul ops v (lane_invert ops two) = half v)"
  then have "Sk4f_mul ops x (Sk4f_invert ops (persp_fW q)) = map4 half x" for x
    using Sk4f_mul_invert_splat [of ops two half x] by (simp add: Sk4f_splat_def)
  then show "GrPerspQuad_bounds ops q kPerspective =
        GrQuad_bounds ops (GrQuad (map4 half (persp_fX q)) (map4 half (persp_fY q)))"
    by (simp add: GrPerspQuad_bounds_def GrQuad_bounds_def iw4f_def w4f_def Let_def)
next
  assume h: "persp_fW q = Float4 1 1 1 1 \<and> (\<forall>v. lane_mul ops v (lane_invert ops 1) = v)"
  then have "Sk4f_mul ops x (Sk4f_invert ops (persp_fW q)) = x" for x
    using Sk4f_mul_invert_splat [of ops 1 "\<lambda>v. v" x] by (simp add: Sk4f_splat_def map4_ident)
  then show "GrPerspQuad_bounds ops q kPerspective =
        GrQuad_bounds ops (GrQuad (persp_fX q) (persp_fY q))"
    by (simp add: GrPerspQuad_bounds_def GrQuad_bounds_def iw4f_def w4f_def Let_def)
qed

theorem GrPerspQuad_bounds_divides_iff_perspective_witness:
  "(\<forall>v. lane_mul ex_ops v (lane_invert ex_ops 2) = v / 2) \<and>
   (\<forall>v. lane_mul ex_ops v (lane_invert ex_ops 1) = v) \<and>
   GrPerspQuad_bounds ex_ops ex_persp kPerspective =
     \<lparr>fLeft = 0, fTop = 0, fRight = 2, fBottom = 1\<rparr> \<and>
   GrPerspQuad_bounds ex_ops ex_persp kStandard =
     \<lparr>fLeft = 0, fTop = 0, fRight = 4, fBottom = 2\<rparr> \<and>
   GrPerspQuad_bounds ex_ops ex_persp_ones kPerspective =
     \<lparr>fLeft = 0, fTop = 0, fRight = 4, fBottom = 2\<rparr>"
proof -
  have h2: "\<forall>v. lane_mul ex_ops v (lane_invert ex_ops 2) = v / 2"
    by (simp add: ex_ops_def)
  have h1: "\<forall>v. lane_mul ex_ops v (lane_invert ex_ops 1) = v"
    by (simp add: ex_ops_def)
  have w2: "persp_fW ex_persp = Float4 2 2 2 2"
    by (simp add: ex_persp_def)
  have w1: "persp_fW ex_persp_ones = Float4 1 1 1 1"
    by (simp add: ex_persp_ones_def)
  from GrPerspQuad_bounds_divides_iff_perspective [of kPerspective ex_ops ex_persp 2 "\<lambda>v. v / 2"] w2 h2
  have "GrPerspQuad_bounds ex_ops ex_persp kPerspective =
      GrQuad_bounds ex_ops (GrQuad (map4 (\<lambda>v. v / 2) (persp_fX ex_persp))
                                   (map4 (\<lambda>v. v / 2) (persp_fY ex_persp)))"
    by blast
  then have a: "GrPerspQuad_bounds ex_ops ex_persp kPerspective =
      \<lparr>fLeft = 0, fTop = 0, fRight = 2, fBottom = 1\<rparr>"
    by (simp add: GrQuad_bounds_def ex_persp_def ex_ops_def)
  from GrPerspQuad_bounds_divides_iff_perspective [of kStandard ex_ops ex_persp 2 "\<lambda>v. v / 2"]
  have "GrPerspQuad_bounds ex_ops ex_persp kStandard =
      GrQuad_bounds ex_ops (GrQuad (persp_fX ex_persp) (persp_fY ex_persp))"
    by simp
  then have b: "GrPerspQuad_bounds ex_ops ex_persp kStandard =
      \<lparr>fLeft = 0, fTop = 0, fRight = 4, fBottom = 2\<rparr>"
    by (simp add: GrQuad_bounds_def ex_persp_def ex_ops_def)
  from GrPerspQuad_bounds_divides_iff_perspective [of kPerspective ex_ops ex_persp_ones 2 "\<lambda>v. v / 2"] w1 h1
  have "GrPerspQuad_bounds ex_ops ex_persp_ones kPerspective =
      GrQuad_bounds ex_ops (GrQuad (persp_fX ex_persp_ones) (persp_fY ex_persp_ones))"
    by blast
  then have c: "GrPerspQuad_bounds ex_ops ex_persp_ones kPerspective =
      \<lparr>fLeft = 0, fTop = 0, fRight = 4, fBottom = 2\<rparr>"
    by (simp add: GrQuad_bounds_def ex_persp_ones_def ex_ops_def)
  from h2 h1 a b c show ?thesis by blast
qed

section \<open>The tracked type never decreases\<close>

lemma fType_reserve: "fType (reserve n t l) = fType l"
  by (simp add: reserve_def Let_def)

lemma fType_set_metadata: "set_metadata i md l = Some l' \<Longrightarrow> fType l' = fType l"
  by (auto simp: set_metadata_def split: option.splits)

text \<open>
Claim C7. No operation of the list lowers the tracked type: \<^verbatim>\<open>reserve\<close>,
  \<^verbatim>\<open>push_back\<close> and \<^verbatim>\<open>concat\<close> for every argument and every list, and every operation
  (these, the indexed read, the reads of count and type, and the metadata accessors)
  whenever it leaves a list behind.
\<close>

theorem quadType_never_decreases:
  "quadType l \<le> quadType (reserve n forType l) \<and>
   quadType l \<le> quadType (push_back a l) \<and>
   quadType l \<le> quadType (concat_list that l) \<and>
   (run_op opr l = Some l' \<longrightarrow> quadType l \<le> quadType l')"
proof (intro conjI impI)
  show "quadType l \<le> quadType (reserve n forType l)"
    by (simp add: quadType_def fType_reserve)
  show "quadType l \<le> quadType (push_back a l)"
    by (simp add: quadType_def fType_push_back)
  show "quadType l \<le> quadType (concat_list that l)"
    by (simp add: quadType_def concat_list_def fType_concatImpl)
  assume "run_op opr l = Some l'"
  then have "fType l \<le> fType l'"
    by (cases opr)
       (auto simp: fType_reserve fType_push_back concat_list_def fType_concatImpl
          fType_set_metadata split: option.splits)
  then show "quadType l \<le> quadType l'"
    by (simp add: quadType_def)
qed

theorem quadType_never_decreases_witness:
  "run_op (OpPushBack (PushPersp ex_persp kPerspective ())) ex_list_A =
     Some (push_back (PushPersp ex_persp kPerspective ()) ex_list_A) \<and>
   quadType ex_list_A = kRect \<and>
   quadType (push_back (PushPersp ex_persp kPerspective ()) ex_list_A) = kPerspective \<and>
   quadType ex_list_A \<le> quadType (push_back (PushPersp ex_persp kPerspective ()) ex_list_A)"
proof -
  let ?a = "PushPersp ex_persp kPerspective ()"
  have r: "run_op (OpPushBack ?a) ex_list_A = Some (push_back ?a ex_list_A)"
    by simp
  from quadType_never_decreases [of ex_list_A 0 kRect ?a ex_list_A "OpPushBack ?a" "push_back ?a ex_list_A"] r
  have c: "quadType ex_list_A \<le> quadType (push_back ?a ex_list_A)"
    by simp
  have t: "quadType ex_list_A = kRect" "quadType (push_back ?a ex_list_A) = kPerspective"
    by (simp_all add: ex_list_A_eq ex_persp_def op_defs)
  from r c t show ?thesis by simp
qed

section \<open>The debug assertion of push_back\<close>

lemma count_pushBackImpl_quad: "count (pushBackImpl_quad quad type md l) = count l + 1"
  by (simp add: pushBackImpl_quad_def Let_def count_def fXYs_upgradeType)

lemma count_pushBackImpl_persp: "count (pushBackImpl_persp quad type md l) = count l + 1"
  by (simp add: pushBackImpl_persp_def Let_def count_def fXYs_upgradeType)

text \<open>
Claim C8. When the quad's classification is at most the declared type, the assertion of
  \<^verbatim>\<open>pushBackImpl\<close> holds, for a \<^verbatim>\<open>GrQuad\<close> and for a \<^verbatim>\<open>GrPerspQuad\<close>: the debug build
  returns what the release build returns and never the assertion failure. The push itself
  has no error to return: it always yields a list with one more entry.
\<close>

theorem push_back_assertion_holds_under_contract:
  "(qtq quad \<le> type \<longrightarrow>
      pushBackImpl_quad_debug qtq quad type md l = Inr (pushBackImpl_quad quad type md l)) \<and>
   (qtp pquad \<le> type \<longrightarrow>
      pushBackImpl_persp_debug qtp pquad type md l = Inr (pushBackImpl_persp pquad type md l)) \<and>
   count (pushBackImpl_quad quad type md l) = count l + 1 \<and>
   count (pushBackImpl_persp pquad type md l) = count l + 1"
  by (simp add: pushBackImpl_quad_debug_def pushBackImpl_persp_debug_def
        count_pushBackImpl_quad count_pushBackImpl_persp)

theorem push_back_assertion_holds_under_contract_witness:
  "(kRect::GrQuadType) \<le> kStandard \<and>
   pushBackImpl_quad_debug (\<lambda>q. kRect) ex_quad kStandard () ex_list_A =
     Inr (pushBackImpl_quad ex_quad kStandard () ex_list_A) \<and>
   kPerspective \<le> kPerspective \<and>
   pushBackImpl_persp_debug (\<lambda>q. kPerspective) ex_persp kPerspective () ex_list_A =
     Inr (pushBackImpl_persp ex_persp kPerspective () ex_list_A)"
proof -
  have le: "(kRect::GrQuadType) \<le> kStandard" "kPerspective \<le> kPerspective"
    by (simp_all add: less_eq_GrQuadType_def)
  from push_back_assertion_holds_under_contract
    [of "\<lambda>q. kRect" ex_quad kStandard "()" ex_list_A "\<lambda>q. kPerspective" ex_persp] le
  have a: "pushBackImpl_quad_debug (\<lambda>q. kRect) ex_quad kStandard () ex_list_A =
     Inr (pushBackImpl_quad ex_quad kStandard () ex_list_A)"
    by simp
  from push_back_assertion_holds_under_contract
    [of "\<lambda>q. kRect" ex_quad kPerspective "()" ex_list_A "\<lambda>q. kPerspective" ex_persp] le
  have b: "pushBackImpl_persp_debug (\<lambda>q. kPerspective) ex_persp kPerspective () ex_list_A =
     Inr (pushBackImpl_persp ex_persp kPerspective () ex_list_A)"
    by simp
  from le a b show ?thesis by simp
qed

section \<open>hasPerspective\<close>

lemma at4_range: "0 \<le> i \<Longrightarrow> i < 4 \<Longrightarrow> i = 0 \<or> i = 1 \<or> i = 2 \<or> i = (3::int)"
  by arith

text \<open>
Claim C9. \<^verbatim>\<open>hasPerspective()\<close> is true exactly when one of the four weights \<open>w(0)\<close> to
  \<open>w(3)\<close> is not 1, and it is false for every quad read through \<^verbatim>\<open>operator[]\<close> out of a list
  whose tracked type is below Perspective.
\<close>

theorem hasPerspective_iff_weight_not_one:
  "(hasPerspective q \<longleftrightarrow> (\<exists>i. 0 \<le> i \<and> i < 4 \<and> quad_w q i \<noteq> Some 1)) \<and>
   (quadType l < kPerspective \<and> index_op l i = Some q \<longrightarrow> \<not> hasPerspective q)"
proof
  obtain x y a b c d where q: "q = GrPerspQuad x y (Float4 a b c d)"
    by (metis GrPerspQuad.exhaust float4.exhaust)
  show "hasPerspective q \<longleftrightarrow> (\<exists>i. 0 \<le> i \<and> i < 4 \<and> quad_w q i \<noteq> Some 1)"
  proof
    assume "hasPerspective q"
    then have "a \<noteq> 1 \<or> b \<noteq> 1 \<or> c \<noteq> 1 \<or> d \<noteq> 1"
      by (simp add: q hasPerspective_def w4f_def Sk4f_splat_def)
    then have d: "quad_w q 0 \<noteq> Some 1 \<or> quad_w q 1 \<noteq> Some 1 \<or>
               quad_w q 2 \<noteq> Some 1 \<or> quad_w q 3 \<noteq> Some 1"
      by (simp add: q quad_w_def)
    have e: "\<exists>i. 0 \<le> i \<and> i < 4 \<and> quad_w q i \<noteq> Some 1"
      if "0 \<le> k" "k < 4" "quad_w q k \<noteq> Some 1" for k
      using that by blast
    from d e [of 0] e [of 1] e [of 2] e [of 3]
    show "\<exists>i. 0 \<le> i \<and> i < 4 \<and> quad_w q i \<noteq> Some 1"
      by fastforce
  next
    assume "\<exists>i. 0 \<le> i \<and> i < 4 \<and> quad_w q i \<noteq> Some 1"
    then obtain i where i: "0 \<le> i" "i < 4" "quad_w q i \<noteq> Some 1" by blast
    from at4_range [OF i(1,2)] i(3) show "hasPerspective q"
      by (auto simp: q quad_w_def hasPerspective_def w4f_def Sk4f_splat_def)
  qed
  show "quadType l < kPerspective \<and> index_op l i = Some q \<longrightarrow> \<not> hasPerspective q"
    by (auto simp: quadType_def index_op_def Let_def kNoPerspectiveWs_def hasPerspective_def
          w4f_def Sk4f_splat_def split: if_splits)
qed

theorem hasPerspective_iff_weight_not_one_witness:
  "quadType ex_list_A < kPerspective \<and>
   index_op ex_list_A 0 = Some (GrPerspQuad (Float4 0 0 2 2) (Float4 0 1 0 1) (Float4 1 1 1 1)) \<and>
   \<not> hasPerspective (GrPerspQuad (Float4 0 0 2 2) (Float4 0 1 0 1) (Float4 1 1 1 (1::real))) \<and>
   hasPerspective ex_persp \<and> quad_w ex_persp 0 \<noteq> Some 1"
proof -
  let ?q = "GrPerspQuad (Float4 0 0 2 2) (Float4 0 1 0 1) (Float4 1 1 1 (1::real))"
  have t: "quadType ex_list_A < kPerspective"
    by (simp add: ex_list_A_eq quadType_def less_GrQuadType_def)
  have i: "index_op ex_list_A 0 = Some ?q"
    by (simp add: index_op_def ex_list_A_eq count_def kNoPerspectiveWs_def)
  from hasPerspective_iff_weight_not_one [of ?q ex_list_A 0] t i
  have n: "\<not> hasPerspective ?q" by blast
  have w: "quad_w ex_persp 0 \<noteq> Some 1"
    by (simp add: quad_w_def ex_persp_def)
  have wi: "(0::int) \<le> 0 \<and> (0::int) < 4 \<and> quad_w ex_persp 0 \<noteq> Some 1"
    using w by simp
  from hasPerspective_iff_weight_not_one [of ex_persp ex_list_A 0] wi
  have p: "hasPerspective ex_persp"
    by blast
  from t i n p w show ?thesis by simp
qed

section \<open>GeometryTransform::Make\<close>

text \<open>
Claim C10. \<^verbatim>\<open>GeometryTransform::Make(child, transform)\<close> returns the null pointer exactly
  when one of its two arguments is null; when both are non-null it returns a node that holds
  these two arguments.
\<close>

theorem Make_null_iff:
  "(Make child transform = None \<longleftrightarrow> child = None \<or> transform = None) \<and>
   (child \<noteq> None \<and> transform \<noteq> None \<longrightarrow>
      (\<exists>n. Make child transform = Some n \<and> fChild n = child \<and> fTransform n = transform))"
  by (simp add: Make_def new_GeometryTransform_def)

theorem Make_null_iff_witness:
  "Make (Some (1::nat)) (Some (2::nat)) = Some \<lparr>fChild = Some 1, fTransform = Some 2\<rparr> \<and>
   Make (None :: nat option) (Some (2::nat)) = None \<and>
   Make (Some (1::nat)) (None :: nat option) = None"
proof -
  from Make_null_iff [of "Some (1::nat)" "Some (2::nat)"]
  obtain n where "Make (Some (1::nat)) (Some (2::nat)) = Some n"
    "fChild n = Some 1" "fTransform n = Some 2"
    by auto
  then have a: "Make (Some (1::nat)) (Some (2::nat)) = Some \<lparr>fChild = Some 1, fTransform = Some 2\<rparr>"
    by (cases n) simp
  from Make_null_iff [of "None :: nat option" "Some (2::nat)"]
  have b: "Make (None :: nat option) (Some (2::nat)) = None" by simp
  from Make_null_iff [of "Some (1::nat)" "None :: nat option"]
  have c: "Make (Some (1::nat)) (None :: nat option) = None" by simp
  from a b c show ?thesis by simp
qed

end
